theory Spec2Isabelle
  imports Complex_Main "HOL-Library.Word" "HOL-Library.Monad_Syntax"
begin

unbundle bit_operations_syntax

section \<open>Deterministic pseudo-random generator (Mulberry32)\<close>

text \<open>
  \<^verbatim>\<open>
  function pseudoRandom(seed: number): number {
    var t = seed += 0x6D2B79F5;
    t = Math.imul(t ^ t >>> 15, t | 1);
    t ^= t + Math.imul(t ^ t >>> 7, t | 61);
    return ((t ^ t >>> 14) >>> 0) / 4294967296;
  }
  \<close>
  (GestureController.tsx). The seed is an integer; every bitwise operator of JavaScript
  first reduces its operand modulo \<open>2 ^ 32\<close>, \<open>Math.imul\<close> keeps the low 32 bits of the
  product and \<open>>>>\<close> is the logical shift, which binds tighter than \<open>^\<close>. So after the
  first addition (exact on doubles for every seed below \<open>2 ^ 53 - 0x6D2B79F5\<close> in absolute
  value) the computation is one on 32-bit words, and the final \<open>>>> 0\<close> reads the word as
  unsigned.
\<close>

type_synonym u32 = "32 word"

definition imul :: "u32 \<Rightarrow> u32 \<Rightarrow> u32" where
  "imul a b = a * b"

definition pseudoRandom :: "int \<Rightarrow> real" where
  "pseudoRandom seed =
     (let t0 = (word_of_int (seed + 0x6D2B79F5) :: u32);
          t1 = imul (t0 XOR drop_bit 15 t0) (t0 OR 1);
          t2 = t1 XOR (t1 + imul (t1 XOR drop_bit 7 t1) (t1 OR 61))
      in real (unat (t2 XOR drop_bit 14 t2)) / 4294967296)"

text \<open>
  Polaroids.tsx carries its own copy, with a fresh local instead of the update of the
  parameter and with the shifts parenthesised:
  \<^verbatim>\<open>
  function pseudoRandom(seed: number): number {
    let t = seed + 0x6D2B79F5;
    t = Math.imul(t ^ (t >>> 15), t | 1);
    t ^= t + Math.imul(t ^ (t >>> 7), t | 61);
    return ((t ^ (t >>> 14)) >>> 0) / 4294967296;
  }
  \<close>
\<close>

definition pseudoRandom_Polaroids :: "int \<Rightarrow> real" where
  "pseudoRandom_Polaroids seed =
     (let t = (word_of_int (seed + 0x6D2B79F5) :: u32);
          t' = imul (t XOR (drop_bit 15 t)) (t OR 1);
          t'' = t' XOR (t' + imul (t' XOR (drop_bit 7 t')) (t' OR 61))
      in real (unat (t'' XOR (drop_bit 14 t''))) / 4294967296)"

section \<open>Gesture classifier and debouncer (GestureController.tsx)\<close>

text \<open>
  Modelled from the spec: the enum \<open>TreeMode\<close> is declared in \<open>../types\<close>, which is not
  among the source files; the code uses \<open>TreeMode.CHAOS\<close> and \<open>TreeMode.FORMED\<close> and the
  spec says the enum has exactly these two values.
\<close>

datatype TreeMode = CHAOS | FORMED

text \<open>
  One landmark of the hand-landmark collaborator: normalised coordinates. A hand is a
  list of landmarks (21 of them when the collaborator keeps its contract); reading a
  field of \<open>landmarks[i]\<close> beyond the end of the array throws a \<open>TypeError\<close>, which is
  the value \<open>None\<close> here.
\<close>

record landmark =
  lm_x :: real
  lm_y :: real
  lm_z :: real

definition landmark_at :: "landmark list \<Rightarrow> nat \<Rightarrow> landmark option" where
  "landmark_at landmarks i = (if i < length landmarks then Some (landmarks ! i) else None)"

definition hypot :: "real \<Rightarrow> real \<Rightarrow> real" where
  "hypot a b = sqrt (a * a + b * b)"

text \<open>
  The refs of the component: \<open>openFrames\<close>, \<open>closedFrames\<close>, \<open>lastModeRef\<close>, and the
  status string set by \<open>setGestureStatus\<close>. The counters are JavaScript numbers holding
  integers; they are \<open>int\<close> here, so that their sign is a property to prove.
\<close>

record gesture_state =
  openFrames :: int
  closedFrames :: int
  lastModeRef :: TreeMode
  gestureStatus :: string

definition CONFIDENCE_THRESHOLD :: int where
  "CONFIDENCE_THRESHOLD = 5"

definition initial_state :: "TreeMode \<Rightarrow> gesture_state" where
  "initial_state currentMode =
     \<lparr>openFrames = 0, closedFrames = 0, lastModeRef = currentMode,
      gestureStatus = ''Initializing...''\<rparr>"

definition fingerTips :: "nat list" where
  "fingerTips = [8, 12, 16, 20]"

definition fingerBases :: "nat list" where
  "fingerBases = [5, 9, 13, 17]"

text \<open>
  Lines 178-179 of \<open>detectGesture\<close>: the palm centre, the mean of the wrist and the four
  finger bases. It only feeds the display (\<open>setHandPos\<close>, \<open>onHandPosition\<close>), but its
  reads come first and can throw.
\<close>

definition palmCenter :: "landmark list \<Rightarrow> (real \<times> real) option" where
  "palmCenter landmarks = do {
     l0 \<leftarrow> landmark_at landmarks 0;
     l5 \<leftarrow> landmark_at landmarks 5;
     l9 \<leftarrow> landmark_at landmarks 9;
     l13 \<leftarrow> landmark_at landmarks 13;
     l17 \<leftarrow> landmark_at landmarks 17;
     Some ((lm_x l0 + lm_x l5 + lm_x l9 + lm_x l13 + lm_x l17) / 5,
           (lm_y l0 + lm_y l5 + lm_y l9 + lm_y l13 + lm_y l17) / 5)
   }"

text \<open>
  Lines 189-199: the loop \<open>for (let i = 0; i < 4; i++)\<close> over the pairs
  \<open>(fingerTips[i], fingerBases[i])\<close>, with the running count \<open>extendedFingers\<close>.
\<close>

fun finger_loop :: "landmark list \<Rightarrow> landmark \<Rightarrow> (nat \<times> nat) list \<Rightarrow> nat \<Rightarrow> nat option" where
  "finger_loop landmarks wrist [] extendedFingers = Some extendedFingers"
| "finger_loop landmarks wrist ((t, b) # rest) extendedFingers = do {
     tip \<leftarrow> landmark_at landmarks t;
     base \<leftarrow> landmark_at landmarks b;
     let distTip = hypot (lm_x tip - lm_x wrist) (lm_y tip - lm_y wrist);
     let distBase = hypot (lm_x base - lm_x wrist) (lm_y base - lm_y wrist);
     finger_loop landmarks wrist rest
       (if distTip > distBase * 1.5 then extendedFingers + 1 else extendedFingers)
   }"

text \<open>Lines 177-205 of \<open>detectGesture\<close>: the count of extended fingers of one hand.\<close>

definition countExtendedFingers :: "landmark list \<Rightarrow> nat option" where
  "countExtendedFingers landmarks = do {
     wrist \<leftarrow> landmark_at landmarks 0;
     _ \<leftarrow> palmCenter landmarks;
     n \<leftarrow> finger_loop landmarks wrist (zip fingerTips fingerBases) 0;
     thumbTip \<leftarrow> landmark_at landmarks 4;
     thumbBase \<leftarrow> landmark_at landmarks 2;
     let distThumbTip = hypot (lm_x thumbTip - lm_x wrist) (lm_y thumbTip - lm_y wrist);
     let distThumbBase = hypot (lm_x thumbBase - lm_x wrist) (lm_y thumbBase - lm_y wrist);
     Some (if distThumbTip > distThumbBase * 1.2 then n + 1 else n)
   }"

text \<open>
  Lines 207-238 of \<open>detectGesture\<close>: the three branches on the count. The result is the
  new state and the call of \<open>onModeChange\<close> made, if any.
\<close>

definition commitGesture :: "nat \<Rightarrow> gesture_state \<Rightarrow> gesture_state \<times> TreeMode option" where
  "commitGesture extendedFingers st =
     (if extendedFingers \<ge> 4 then
        let st1 = st\<lparr>openFrames := openFrames st + 1, closedFrames := 0,
                      gestureStatus := ''Detected: OPEN (Unleash)''\<rparr>
        in if openFrames st1 > CONFIDENCE_THRESHOLD then
             if lastModeRef st1 \<noteq> CHAOS then (st1\<lparr>lastModeRef := CHAOS\<rparr>, Some CHAOS)
             else (st1, None)
           else (st1, None)
      else if extendedFingers \<le> 1 then
        let st1 = st\<lparr>closedFrames := closedFrames st + 1, openFrames := 0,
                      gestureStatus := ''Detected: CLOSED (Restore)''\<rparr>
        in if closedFrames st1 > CONFIDENCE_THRESHOLD then
             if lastModeRef st1 \<noteq> FORMED then (st1\<lparr>lastModeRef := FORMED\<rparr>, Some FORMED)
             else (st1, None)
           else (st1, None)
      else
        (st\<lparr>gestureStatus := ''Detected: ...'', openFrames := 0, closedFrames := 0\<rparr>, None))"

definition detectGesture :: "landmark list \<Rightarrow> gesture_state \<Rightarrow> (gesture_state \<times> TreeMode option) option" where
  "detectGesture landmarks st = do {
     extendedFingers \<leftarrow> countExtendedFingers landmarks;
     Some (commitGesture extendedFingers st)
   }"

text \<open>
  One frame of \<open>predictWebcam\<close> that reaches the detector. The argument is
  \<open>result.landmarks\<close>: \<open>None\<close> when the field is missing, otherwise the list of hands; the
  first hand is classified. Without a hand both counters decay.
\<close>

type_synonym frame = "landmark list list option"

definition predictWebcam :: "frame \<Rightarrow> gesture_state \<Rightarrow> (gesture_state \<times> TreeMode option) option" where
  "predictWebcam result st =
     (case result of
        Some (landmarks # others) \<Rightarrow> detectGesture landmarks st
      | _ \<Rightarrow>
          Some (st\<lparr>gestureStatus := ''No hand detected'',
                   openFrames := max 0 (openFrames st - 1),
                   closedFrames := max 0 (closedFrames st - 1)\<rparr>, None))"

text \<open>
  Lines 249-251: the effect \<open>lastModeRef.current = currentMode\<close>, run when the parent
  passes a new \<open>currentMode\<close>.
\<close>

definition syncMode :: "TreeMode \<Rightarrow> gesture_state \<Rightarrow> gesture_state" where
  "syncMode currentMode st = st\<lparr>lastModeRef := currentMode\<rparr>"

text \<open>
  A run of frames, with the calls of \<open>onModeChange\<close> in order. An exception leaves
  \<open>predictWebcam\<close> before it requests the next animation frame, so the run stops there.
\<close>

fun run_frames :: "frame list \<Rightarrow> gesture_state \<Rightarrow> gesture_state \<times> TreeMode list" where
  "run_frames [] st = (st, [])"
| "run_frames (f # fs) st =
     (case predictWebcam f st of
        None \<Rightarrow> (st, [])
      | Some (st1, ev) \<Rightarrow>
          (case run_frames fs st1 of
             (st2, evs) \<Rightarrow> (st2, (case ev of None \<Rightarrow> [] | Some m \<Rightarrow> [m]) @ evs)))"

text \<open>The frames the detector takes as an open hand, a closed hand, or neither.\<close>

definition frame_count :: "frame \<Rightarrow> nat option" where
  "frame_count f = (case f of Some (landmarks # others) \<Rightarrow> countExtendedFingers landmarks | _ \<Rightarrow> None)"

definition open_frame :: "frame \<Rightarrow> bool" where
  "open_frame f = (case frame_count f of Some n \<Rightarrow> n \<ge> 4 | None \<Rightarrow> False)"

definition closed_frame :: "frame \<Rightarrow> bool" where
  "closed_frame f = (case frame_count f of Some n \<Rightarrow> n \<le> 1 | None \<Rightarrow> False)"

text \<open>
  The classifier in the words of the specification, to compare \<open>detectGesture\<close> with: a
  finger is extended when its tip is farther from the wrist than a multiple of the
  distance of its base, the count decides the class. The distance is the one of the
  image plane; the code never reads \<open>z\<close>.
\<close>

datatype classification = OPEN | CLOSED | AMBIGUOUS







text \<open>
  The frames whose gesture stands for a mode: an open hand for \<open>CHAOS\<close>, a fist for
  \<open>FORMED\<close>.
\<close>

definition frame_implies :: "TreeMode \<Rightarrow> frame \<Rightarrow> bool" where
  "frame_implies m f = (case m of CHAOS \<Rightarrow> open_frame f | FORMED \<Rightarrow> closed_frame f)"

text \<open>
  The run counter that stands for a mode: \<open>openFrames\<close> for \<open>CHAOS\<close>, \<open>closedFrames\<close> for
  \<open>FORMED\<close>.
\<close>

definition run_counter :: "TreeMode \<Rightarrow> gesture_state \<Rightarrow> int" where
  "run_counter m st = (case m of CHAOS \<Rightarrow> openFrames st | FORMED \<Rightarrow> closedFrames st)"

text \<open>
  The states of the debouncer that can be reached from zero counters: by a frame that
  \<open>predictWebcam\<close> processes, or by the effect that copies a new \<open>currentMode\<close>.
\<close>

inductive reachable :: "gesture_state \<Rightarrow> bool" where
  start: "openFrames st = 0 \<Longrightarrow> closedFrames st = 0 \<Longrightarrow> reachable st"
| frame: "reachable st \<Longrightarrow> predictWebcam f st = Some (st1, ev) \<Longrightarrow> reachable st1"
| sync: "reachable st \<Longrightarrow> reachable (syncMode m st)"

text \<open>Two hands for concrete runs: all five fingers stretched along the x axis, and a fist.\<close>

definition pt :: "real \<Rightarrow> landmark" where
  "pt a = \<lparr>lm_x = a, lm_y = 0, lm_z = 0\<rparr>"

definition open_hand :: "landmark list" where
  "open_hand = [pt 0, pt 1, pt 1, pt 2, pt 3,
                pt 1, pt 2, pt 3, pt 4,
                pt 1, pt 2, pt 3, pt 4,
                pt 1, pt 2, pt 3, pt 4,
                pt 1, pt 2, pt 3, pt 4]"

definition fist :: "landmark list" where
  "fist = [pt 0, pt 1, pt 1, pt 1, pt 1,
           pt 1, pt 1, pt 1, pt 1,
           pt 1, pt 1, pt 1, pt 1,
           pt 1, pt 1, pt 1, pt 1,
           pt 1, pt 1, pt 1, pt 1]"


section \<open>Chaos-spread layout (GestureController.tsx)\<close>


















section \<open>Dual-position generator and progress (Foliage.tsx)\<close>

text \<open>
  The three \<open>Float32Array\<close>s the \<open>useMemo\<close> callback returns. The values are reals here
  (the rounding to 32-bit floats is left out). \<open>Math.random()\<close> is the stream \<open>random\<close>:
  \<open>random k\<close> is the value of the \<open>k\<close>-th call, and iteration \<open>i\<close> makes the calls
  \<open>7 * i\<close> to \<open>7 * i + 6\<close> in the order of the source.
\<close>

record particle_arrays =
  chaosPositions :: "real list"
  targetPositions :: "real list"
  randoms :: "real list"

definition goldenRatio :: real where
  "goldenRatio = (1 + sqrt 5) / 2"

definition height :: real where
  "height = 12"

definition maxRadius :: real where
  "maxRadius = 5"

definition target_u :: "nat \<Rightarrow> nat \<Rightarrow> real" where
  "target_u count i = (real i + 0.5) / real count"

definition target_r01 :: "real \<Rightarrow> real" where
  "target_r01 u = u powr 0.45"

definition target_diskR :: "real \<Rightarrow> real" where
  "target_diskR r01 = maxRadius * 3 * r01"

definition foliage_body :: "(nat \<Rightarrow> real) \<Rightarrow> nat \<Rightarrow> nat \<Rightarrow> particle_arrays \<Rightarrow> particle_arrays" where
  "foliage_body random count i a =
     (let k = 7 * i;
          r = 55 * random k;
          theta = random (k + 1) * 2 * pi;
          phi = arccos (2 * random (k + 2) - 1);
          verticalBias = (random (k + 3) - 0.5) * 20;
          chaos = (chaosPositions a)
                    [i * 3 := r * sin phi * cos theta * 1.8,
                     i * 3 + 1 := r * sin phi * sin theta + 8 + verticalBias,
                     i * 3 + 2 := r * cos phi * 1.3];
          u = target_u count i;
          r01 = target_r01 u;
          diskR = target_diskR r01;
          bulge = (1 - r01) * (1 - r01);
          thetaG = 2 * pi * goldenRatio * real i;
          arms = 3;
          twist = diskR * 0.45;
          thetaSpiral = thetaG + arms * twist;
          baseY = height * 0.95 + 1.0;
          thicknessCenter = 2.0;
          thicknessEdge = 0.4;
          edgeDrop = - 0.35 * (r01 * r01);
          localThickness = thicknessEdge + (thicknessCenter - thicknessEdge) * bulge;
          verticalVariation = (random (k + 4) - 0.5) * localThickness * 1.2;
          y = baseY + edgeDrop + verticalVariation;
          jitter = (random (k + 5) - 0.5) * 0.20;
          rr = diskR * (1 + jitter);
          target = (targetPositions a)
                     [i * 3 := cos thetaSpiral * rr,
                      i * 3 + 1 := y,
                      i * 3 + 2 := sin thetaSpiral * rr];
          rnd = (randoms a)[i := random (k + 6)]
      in \<lparr>chaosPositions = chaos, targetPositions = target, randoms = rnd\<rparr>)"

function foliage_loop :: "(nat \<Rightarrow> real) \<Rightarrow> nat \<Rightarrow> nat \<Rightarrow> particle_arrays \<Rightarrow> particle_arrays" where
  "foliage_loop random count i a =
     (if i < count then foliage_loop random count (i + 1) (foliage_body random count i a)
      else a)"
  by pat_completeness auto
termination
  by (relation "measure (\<lambda>(random, count, i, a). count - i)") auto

declare foliage_loop.simps [simp del]

definition generatePositions :: "(nat \<Rightarrow> real) \<Rightarrow> nat \<Rightarrow> particle_arrays" where
  "generatePositions random count =
     foliage_loop random count 0
       \<lparr>chaosPositions = replicate (count * 3) 0,
        targetPositions = replicate (count * 3) 0,
        randoms = replicate count 0\<rparr>"

text \<open>
  The angle \<open>thetaSpiral\<close> and the jittered radius \<open>rr\<close> of iteration \<open>i\<close>, as the body
  computes them, named for the statements about the entries it writes.
\<close>

definition target_thetaSpiral :: "nat \<Rightarrow> nat \<Rightarrow> real" where
  "target_thetaSpiral count i =
     2 * pi * goldenRatio * real i + 3 * (target_diskR (target_r01 (target_u count i)) * 0.45)"

definition target_rr :: "(nat \<Rightarrow> real) \<Rightarrow> nat \<Rightarrow> nat \<Rightarrow> real" where
  "target_rr random count i =
     target_diskR (target_r01 (target_u count i)) * (1 + (random (7 * i + 5) - 0.5) * 0.20)"

text \<open>The distance of particle \<open>i\<close> of the target layout from the vertical axis.\<close>

definition target_radial :: "particle_arrays \<Rightarrow> nat \<Rightarrow> real" where
  "target_radial a i = hypot (targetPositions a ! (i * 3)) (targetPositions a ! (i * 3 + 2))"

text \<open>A stream of draws that are all the same value, for concrete runs.\<close>

definition const_random :: "real \<Rightarrow> nat \<Rightarrow> real" where
  "const_random c k = c"

text \<open>
  Modelled from the spec: \<open>THREE.MathUtils.lerp\<close> belongs to the three.js library, which
  is not among the source files. It is the plain linear interpolation the spec names,
  \<open>lerp(x, y, t) = (1 - t) * x + t * y\<close>.
\<close>

definition lerp :: "real \<Rightarrow> real \<Rightarrow> real \<Rightarrow> real" where
  "lerp a b t = (1 - t) * a + t * b"

text \<open>
  The \<open>useFrame\<close> callback, lines 273-275: one update of \<open>progressRef.current\<close> for the
  frame's \<open>delta\<close>. The arithmetic is that of the real numbers; the code computes in
  doubles and rounds each operation, which this definition leaves out.
\<close>

definition progress_step :: "TreeMode \<Rightarrow> real \<Rightarrow> real \<Rightarrow> real" where
  "progress_step mode delta progress =
     (let target = (if mode = FORMED then 1 else 0)
      in lerp progress target (delta * 1.5))"

fun run_progress :: "TreeMode \<Rightarrow> real list \<Rightarrow> real \<Rightarrow> real" where
  "run_progress mode [] progress = progress"
| "run_progress mode (delta # deltas) progress =
     run_progress mode deltas (progress_step mode delta progress)"

section \<open>Properties\<close>

lemma u32_unat_bound: "unat (w :: u32) < 4294967296"
  using unsigned_less [of w, where ?'a = nat] by simp

lemma u32_fraction_unit: "0 \<le> real (unat (w :: u32)) / 4294967296 \<and> real (unat w) / 4294967296 < 1"
proof -
  have "real (unat w) < 4294967296"
    using u32_unat_bound [of w] by linarith
  moreover have "0 \<le> real (unat w)"
    by (rule of_nat_0_le_iff)
  ultimately show ?thesis by simp
qed

lemma pseudoRandom_unit: "0 \<le> pseudoRandom seed \<and> pseudoRandom seed < 1"
  unfolding pseudoRandom_def Let_def by (rule u32_fraction_unit)

text \<open>
  Claim C9. For every integer seed the generator is a function of the seed alone (it
  reads nothing but its argument, and the two copies in the repository compute the same
  value), and its output lies in the half-open interval \<open>[0, 1)\<close>.
\<close>

theorem pseudoRandom_pure_unit_interval:
  "0 \<le> pseudoRandom seed \<and> pseudoRandom seed < 1 \<and>
   pseudoRandom_Polaroids seed = pseudoRandom seed"
proof -
  have "pseudoRandom_Polaroids seed = pseudoRandom seed"
    unfolding pseudoRandom_def pseudoRandom_Polaroids_def by simp
  then show ?thesis using pseudoRandom_unit [of seed] by simp
qed

lemma hypot_zero_right: "hypot a 0 = \<bar>a\<bar>"
  by (simp add: hypot_def)

lemma commitGesture_open:
  "4 \<le> n \<Longrightarrow> commitGesture n st =
     (if CONFIDENCE_THRESHOLD < openFrames st + 1 \<and> lastModeRef st \<noteq> CHAOS
      then (st\<lparr>openFrames := openFrames st + 1, closedFrames := 0,
                gestureStatus := ''Detected: OPEN (Unleash)'', lastModeRef := CHAOS\<rparr>, Some CHAOS)
      else (st\<lparr>openFrames := openFrames st + 1, closedFrames := 0,
                gestureStatus := ''Detected: OPEN (Unleash)''\<rparr>, None))"
  by (simp add: commitGesture_def Let_def)

lemma predictWebcam_hand:
  "frame_count f = Some n \<Longrightarrow> predictWebcam f st = Some (commitGesture n st)"
  by (cases f; cases "the f")
     (simp_all add: frame_count_def predictWebcam_def detectGesture_def)

lemma open_frame_count: "open_frame f \<Longrightarrow> \<exists>n\<ge>4. frame_count f = Some n"
  by (cases "frame_count f") (simp_all add: open_frame_def)

lemma run_open_frames:
  "\<forall>f\<in>set fs. open_frame f \<Longrightarrow>
   snd (run_frames fs st) =
     (if lastModeRef st \<noteq> CHAOS \<and> fs \<noteq> [] \<and>
         CONFIDENCE_THRESHOLD < openFrames st + int (length fs)
      then [CHAOS] else []) \<and>
   openFrames (fst (run_frames fs st)) = openFrames st + int (length fs) \<and>
   lastModeRef (fst (run_frames fs st)) =
     (if fs \<noteq> [] \<and> CONFIDENCE_THRESHOLD < openFrames st + int (length fs)
      then CHAOS else lastModeRef st)"
proof (induction fs arbitrary: st)
  case Nil
  then show ?case by simp
next
  case (Cons f fs)
  from Cons.prems obtain n where n: "4 \<le> n" "frame_count f = Some n"
    using open_frame_count by auto
  have step: "predictWebcam f st = Some (commitGesture n st)"
    using n(2) by (rule predictWebcam_hand)
  obtain st1 ev where c: "commitGesture n st = (st1, ev)"
    by (cases "commitGesture n st")
  have st1: "openFrames st1 = openFrames st + 1"
    "lastModeRef st1 = (if CONFIDENCE_THRESHOLD < openFrames st + 1 then CHAOS else lastModeRef st)"
    "ev = (if CONFIDENCE_THRESHOLD < openFrames st + 1 \<and> lastModeRef st \<noteq> CHAOS then Some CHAOS else None)"
    using c commitGesture_open [OF n(1), of st] by (auto split: if_splits)
  have ih: "snd (run_frames fs st1) =
     (if lastModeRef st1 \<noteq> CHAOS \<and> fs \<noteq> [] \<and>
         CONFIDENCE_THRESHOLD < openFrames st1 + int (length fs)
      then [CHAOS] else []) \<and>
   openFrames (fst (run_frames fs st1)) = openFrames st1 + int (length fs) \<and>
   lastModeRef (fst (run_frames fs st1)) =
     (if fs \<noteq> [] \<and> CONFIDENCE_THRESHOLD < openFrames st1 + int (length fs)
      then CHAOS else lastModeRef st1)"
    using Cons.prems by (intro Cons.IH) simp
  have run: "run_frames (f # fs) st =
      (fst (run_frames fs st1), (case ev of None \<Rightarrow> [] | Some m \<Rightarrow> [m]) @ snd (run_frames fs st1))"
    by (simp add: step c split: prod.splits)
  show ?case
    unfolding run using ih st1 by (auto simp: CONFIDENCE_THRESHOLD_def)
qed

lemma countExtendedFingers_open_hand: "countExtendedFingers open_hand = Some 5"
  by (simp add: countExtendedFingers_def palmCenter_def landmark_at_def open_hand_def
      fingerTips_def fingerBases_def pt_def hypot_zero_right)

lemma open_frame_open_hand: "open_frame (Some [open_hand])"
  by (simp add: open_frame_def frame_count_def countExtendedFingers_open_hand)

text \<open>
  Claim C1. From \<open>openFrames = closedFrames = 0\<close> with \<open>lastModeRef \<noteq> CHAOS\<close>, a run of frames
  that are all classified as an open hand makes no call of \<open>onModeChange\<close> when it has
  exactly \<open>CONFIDENCE_THRESHOLD\<close> frames, exactly one call, with \<open>CHAOS\<close>, when it has one
  frame more, and still only that one call however many open frames follow.
\<close>

theorem open_run_commits_once:
  assumes "\<forall>f\<in>set (fs @ [f] @ rest). open_frame f"
    and "int (length fs) = CONFIDENCE_THRESHOLD"
    and "openFrames st = 0" and "closedFrames st = 0" and "lastModeRef st \<noteq> CHAOS"
  shows "snd (run_frames fs st) = [] \<and>
         snd (run_frames (fs @ [f]) st) = [CHAOS] \<and>
         snd (run_frames (fs @ [f] @ rest) st) = [CHAOS]"
proof -
  have a: "\<forall>g\<in>set fs. open_frame g" "\<forall>g\<in>set (fs @ [f]). open_frame g"
    using assms(1) by auto
  show ?thesis
    using run_open_frames [OF a(1), of st] run_open_frames [OF a(2), of st]
      run_open_frames [OF assms(1), of st] assms(2,3,5)
    by (auto simp: CONFIDENCE_THRESHOLD_def)
qed

theorem open_run_commits_once_witness:
  "open_frame (Some [open_hand]) \<and>
   set (replicate 5 (Some [open_hand]) @ [Some [open_hand]] @ replicate 100 (Some [open_hand])) =
     {Some [open_hand]} \<and>
   int (length (replicate 5 (Some [open_hand]))) = CONFIDENCE_THRESHOLD \<and>
   openFrames (initial_state FORMED) = 0 \<and> closedFrames (initial_state FORMED) = 0 \<and>
   lastModeRef (initial_state FORMED) \<noteq> CHAOS \<and>
   snd (run_frames (replicate 5 (Some [open_hand])) (initial_state FORMED)) = [] \<and>
   snd (run_frames (replicate 5 (Some [open_hand]) @ [Some [open_hand]]) (initial_state FORMED)) = [CHAOS] \<and>
   snd (run_frames (replicate 5 (Some [open_hand]) @ [Some [open_hand]] @ replicate 100 (Some [open_hand]))
          (initial_state FORMED)) = [CHAOS]"
proof -
  have h0: "set (replicate 5 (Some [open_hand]) @ [Some [open_hand]] @ replicate 100 (Some [open_hand])) =
     {Some [open_hand]}"
    by simp
  have h1: "\<forall>f\<in>set (replicate 5 (Some [open_hand]) @ [Some [open_hand]] @ replicate 100 (Some [open_hand])).
      open_frame f"
    unfolding h0 by (simp add: open_frame_open_hand)
  have h2: "int (length (replicate 5 (Some [open_hand]))) = CONFIDENCE_THRESHOLD"
    by (simp add: CONFIDENCE_THRESHOLD_def)
  have h3: "openFrames (initial_state FORMED) = 0" "closedFrames (initial_state FORMED) = 0"
    "lastModeRef (initial_state FORMED) \<noteq> CHAOS"
    by (simp_all add: initial_state_def)
  show ?thesis
    using open_run_commits_once [OF h1 h2 h3] h0 h2 h3 open_frame_open_hand by simp
qed

text \<open>
  Claim C6. On a frame without a hand (\<open>result.landmarks\<close> missing or empty) both counters
  decay by one, not below zero, \<open>lastModeRef\<close> is left alone and \<open>onModeChange\<close> is not
  called.
\<close>

theorem no_hand_decays_counters:
  "predictWebcam None st =
     Some (st\<lparr>gestureStatus := ''No hand detected'',
              openFrames := max 0 (openFrames st - 1),
              closedFrames := max 0 (closedFrames st - 1)\<rparr>, None) \<and>
   predictWebcam (Some []) st =
     Some (st\<lparr>gestureStatus := ''No hand detected'',
              openFrames := max 0 (openFrames st - 1),
              closedFrames := max 0 (closedFrames st - 1)\<rparr>, None)"
  by (simp add: predictWebcam_def)

lemma commitGesture_openFrames:
  "openFrames (fst (commitGesture n st)) = (if 4 \<le> n then openFrames st + 1 else 0)"
  by (simp add: commitGesture_def Let_def)

lemma commitGesture_closedFrames:
  "closedFrames (fst (commitGesture n st)) =
     (if 4 \<le> n then 0 else if n \<le> 1 then closedFrames st + 1 else 0)"
  by (simp add: commitGesture_def Let_def)

lemma commitGesture_snd:
  "snd (commitGesture n st) =
     (if 4 \<le> n then
        (if CONFIDENCE_THRESHOLD < openFrames st + 1 \<and> lastModeRef st \<noteq> CHAOS
         then Some CHAOS else None)
      else if n \<le> 1 then
        (if CONFIDENCE_THRESHOLD < closedFrames st + 1 \<and> lastModeRef st \<noteq> FORMED
         then Some FORMED else None)
      else None)"
  by (simp add: commitGesture_def Let_def)

lemma commitGesture_lastModeRef:
  "lastModeRef (fst (commitGesture n st)) =
     (case snd (commitGesture n st) of None \<Rightarrow> lastModeRef st | Some m \<Rightarrow> m)"
  by (auto simp add: commitGesture_def Let_def)

lemma commitGesture_event_differs:
  "snd (commitGesture n st) \<noteq> Some (lastModeRef st)"
  by (auto simp add: commitGesture_snd)

lemma predictWebcam_cases:
  assumes "predictWebcam f st = Some (st1, ev)"
  shows "(\<exists>n. frame_count f = Some n \<and> st1 = fst (commitGesture n st) \<and>
              ev = snd (commitGesture n st)) \<or>
         (f \<in> {None, Some []} \<and> ev = None \<and>
          openFrames st1 = max 0 (openFrames st - 1) \<and>
          closedFrames st1 = max 0 (closedFrames st - 1) \<and>
          lastModeRef st1 = lastModeRef st)"
proof (cases f)
  case None
  then show ?thesis using assms by (auto simp add: predictWebcam_def)
next
  case (Some hands)
  show ?thesis
  proof (cases hands)
    case Nil
    then show ?thesis using assms Some by (auto simp add: predictWebcam_def)
  next
    case (Cons landmarks others)
    then have "frame_count f = countExtendedFingers landmarks"
      using Some by (simp add: frame_count_def)
    moreover have "predictWebcam f st = detectGesture landmarks st"
      using Some Cons by (simp add: predictWebcam_def)
    ultimately have d: "detectGesture landmarks st = Some (st1, ev)"
      and c: "frame_count f = countExtendedFingers landmarks"
      using assms by simp_all
    show ?thesis
    proof (cases "countExtendedFingers landmarks")
      case None
      then show ?thesis using d by (simp add: detectGesture_def)
    next
      case (Some n)
      then have "commitGesture n st = (st1, ev)"
        using d by (simp add: detectGesture_def)
      then have "frame_count f = Some n \<and> st1 = fst (commitGesture n st) \<and>
          ev = snd (commitGesture n st)"
        using c Some by simp
      then show ?thesis by (intro disjI1 exI [where x = n])
    qed
  qed
qed

lemma predictWebcam_event:
  assumes "predictWebcam f st = Some (st1, ev)"
  shows "ev \<noteq> Some (lastModeRef st) \<and>
         lastModeRef st1 = (case ev of None \<Rightarrow> lastModeRef st | Some m \<Rightarrow> m)"
  using predictWebcam_cases [OF assms]
proof (elim disjE exE conjE)
  fix n
  assume "st1 = fst (commitGesture n st)" "ev = snd (commitGesture n st)"
  then show ?thesis
    using commitGesture_event_differs [of n st] commitGesture_lastModeRef [of n st] by simp
next
  assume "ev = None" "lastModeRef st1 = lastModeRef st"
  then show ?thesis by simp
qed

lemma predictWebcam_counters:
  assumes "predictWebcam f st = Some (st1, ev)"
    and "0 \<le> openFrames st" "0 \<le> closedFrames st" "openFrames st = 0 \<or> closedFrames st = 0"
  shows "0 \<le> openFrames st1 \<and> 0 \<le> closedFrames st1 \<and>
         (openFrames st1 = 0 \<or> closedFrames st1 = 0)"
  using predictWebcam_cases [OF assms(1)]
proof (elim disjE exE conjE)
  fix n
  assume "st1 = fst (commitGesture n st)"
  then show ?thesis
    using assms(2-) by (simp add: commitGesture_openFrames commitGesture_closedFrames)
next
  assume "openFrames st1 = max 0 (openFrames st - 1)"
    "closedFrames st1 = max 0 (closedFrames st - 1)"
  then show ?thesis using assms(2-) by auto
qed

lemma run_frames_Cons_Some:
  "predictWebcam f st = Some (st1, ev) \<Longrightarrow>
   run_frames (f # fs) st =
     (fst (run_frames fs st1), (case ev of None \<Rightarrow> [] | Some m \<Rightarrow> [m]) @ snd (run_frames fs st1))"
  by (simp split: prod.splits)

lemma run_frames_Cons_None:
  "predictWebcam f st = None \<Longrightarrow> run_frames (f # fs) st = (st, [])"
  by simp

lemma run_frames_first_event:
  "take 1 (snd (run_frames fs st)) \<noteq> [lastModeRef st]"
proof (induction fs arbitrary: st)
  case Nil
  show ?case by simp
next
  case (Cons f fs)
  show ?case
  proof (cases "predictWebcam f st")
    case None
    then show ?thesis by (simp add: run_frames_Cons_None del: run_frames.simps)
  next
    case (Some r)
    obtain st1 ev where r: "r = (st1, ev)" by (cases r)
    have p: "predictWebcam f st = Some (st1, ev)" using Some r by simp
    note e = predictWebcam_event [OF p]
    show ?thesis
    proof (cases ev)
      case None
      then have "lastModeRef st1 = lastModeRef st" using e by simp
      then show ?thesis
        using Cons.IH [of st1] None by (simp add: run_frames_Cons_Some [OF p] del: run_frames.simps)
    next
      case (Some m)
      then show ?thesis
        using e by (simp add: run_frames_Cons_Some [OF p] del: run_frames.simps)
    qed
  qed
qed

lemma frame_implies_count:
  "frame_implies m f \<Longrightarrow>
   \<exists>n. frame_count f = Some n \<and> (m = CHAOS \<longrightarrow> 4 \<le> n) \<and> (m = FORMED \<longrightarrow> \<not> 4 \<le> n \<and> n \<le> 1)"
  by (cases m; cases "frame_count f")
     (simp_all add: frame_implies_def open_frame_def closed_frame_def)

lemma run_frames_committed_mode:
  "lastModeRef st = m \<Longrightarrow> \<forall>f\<in>set fs. frame_implies m f \<Longrightarrow>
   snd (run_frames fs st) = [] \<and> lastModeRef (fst (run_frames fs st)) = m"
proof (induction fs arbitrary: st)
  case Nil
  then show ?case by simp
next
  case (Cons f fs)
  from Cons.prems(2) obtain n where n: "frame_count f = Some n"
      "m = CHAOS \<longrightarrow> 4 \<le> n" "m = FORMED \<longrightarrow> \<not> 4 \<le> n \<and> n \<le> 1"
    using frame_implies_count [of m f] by auto
  have ev: "snd (commitGesture n st) = None"
    using n(2,3) Cons.prems(1) by (cases m) (simp_all add: commitGesture_snd)
  have p: "predictWebcam f st = Some (fst (commitGesture n st), None)"
    using predictWebcam_hand [OF n(1), of st] ev by (metis prod.collapse)
  have "lastModeRef (fst (commitGesture n st)) = m"
    using ev Cons.prems(1) by (simp add: commitGesture_lastModeRef)
  then show ?case
    using Cons.IH [of "fst (commitGesture n st)"] Cons.prems(2)
    by (simp add: run_frames_Cons_Some [OF p] del: run_frames.simps)
qed

lemma countExtendedFingers_fist: "countExtendedFingers fist = Some 0"
  by (simp add: countExtendedFingers_def palmCenter_def landmark_at_def fist_def
      fingerTips_def fingerBases_def pt_def hypot_zero_right)

lemma closed_frame_fist: "closed_frame (Some [fist])"
  by (simp add: closed_frame_def frame_count_def countExtendedFingers_fist)

lemma frame_implies_iff:
  "frame_implies m' f \<longleftrightarrow>
     (\<exists>n. frame_count f = Some n \<and> (if m' = CHAOS then 4 \<le> n else n \<le> 1))"
  by (cases m'; cases "frame_count f")
     (simp_all add: frame_implies_def open_frame_def closed_frame_def)

lemma frame_count_no_hand: "f \<in> {None, Some []} \<Longrightarrow> frame_count f = None"
  by (auto simp: frame_count_def)

lemma next_frame_after_sync:
  assumes "predictWebcam f (syncMode m st) = Some (st1, ev)"
  shows "ev = Some m' \<longleftrightarrow>
           m' \<noteq> m \<and> frame_implies m' f \<and> CONFIDENCE_THRESHOLD \<le> run_counter m' st"
  using predictWebcam_cases [OF assms]
proof (elim disjE exE conjE)
  fix n
  assume n: "frame_count f = Some n" and e: "ev = snd (commitGesture n (syncMode m st))"
  have i: "frame_implies m' f \<longleftrightarrow> (if m' = CHAOS then 4 \<le> n else n \<le> 1)"
    by (simp add: frame_implies_iff n)
  show ?thesis
    unfolding e i
    by (cases m; cases m')
       (auto simp: commitGesture_snd syncMode_def run_counter_def)
next
  assume h: "f \<in> {None, Some []}" and e: "ev = None"
  have "frame_count f = None" using h by (rule frame_count_no_hand)
  then have "\<not> frame_implies m' f" by (simp add: frame_implies_iff)
  then show ?thesis using e by simp
qed

lemma override_against_held_gesture:
  assumes "open_frame f" and "CONFIDENCE_THRESHOLD \<le> openFrames st"
  shows "snd (run_frames [f] (syncMode FORMED st)) = [CHAOS]"
proof -
  have a: "\<forall>g\<in>set [f]. open_frame g" using assms(1) by simp
  show ?thesis
    using run_open_frames [OF a, of "syncMode FORMED st"] assms(2)
    by (simp add: syncMode_def)
qed

lemma six_open_frames:
  "snd (run_frames (replicate 6 (Some [open_hand])) (initial_state FORMED)) = [CHAOS] \<and>
   openFrames (fst (run_frames (replicate 6 (Some [open_hand])) (initial_state FORMED))) = 6 \<and>
   lastModeRef (fst (run_frames (replicate 6 (Some [open_hand])) (initial_state FORMED))) = CHAOS"
proof -
  have a: "\<forall>f\<in>set (replicate 6 (Some [open_hand])). open_frame f"
    by (simp add: open_frame_open_hand)
  show ?thesis
    using run_open_frames [OF a, of "initial_state FORMED"]
    by (simp add: initial_state_def CONFIDENCE_THRESHOLD_def)
qed

text \<open>
  Claim C7, as the code has it. The effect copies the new mode into \<open>lastModeRef\<close> and leaves
  the counters alone. After six frames of an open hand (\<open>CHAOS\<close> committed, \<open>openFrames\<close> = 6)
  an override to \<open>FORMED\<close> from outside is followed, on the very next open frame, by
  \<open>onModeChange(CHAOS)\<close>: the debouncer does take the mode back to the one the gesture
  stands for.
\<close>

theorem external_override_recommitted_counterexample:
  "snd (run_frames (replicate 6 (Some [open_hand])) (initial_state FORMED)) = [CHAOS] \<and>
   lastModeRef (syncMode FORMED
      (fst (run_frames (replicate 6 (Some [open_hand])) (initial_state FORMED)))) = FORMED \<and>
   snd (run_frames [Some [open_hand]]
      (syncMode FORMED
         (fst (run_frames (replicate 6 (Some [open_hand])) (initial_state FORMED))))) = [CHAOS]"
proof -
  have "snd (run_frames [Some [open_hand]]
      (syncMode FORMED
         (fst (run_frames (replicate 6 (Some [open_hand])) (initial_state FORMED))))) = [CHAOS]"
    using six_open_frames
    by (intro override_against_held_gesture open_frame_open_hand)
       (simp add: CONFIDENCE_THRESHOLD_def)
  then show ?thesis using six_open_frames by (simp add: syncMode_def)
qed

text \<open>
  Claim C7, amended. After the effect has copied an externally set mode \<open>m\<close>, \<open>lastModeRef\<close>
  is \<open>m\<close>. While \<open>m\<close> is committed no transition to \<open>m\<close> is committed: the first call of
  \<open>onModeChange\<close> of any run of frames is not for \<open>m\<close>, and frames whose gesture stands for
  \<open>m\<close> cause no call. The counters are not reset: the next frame commits a transition
  exactly when its gesture stands for the other mode and that gesture's run counter had
  already reached the threshold.
\<close>

theorem external_mode_sync:
  "lastModeRef (syncMode m st) = m \<and>
   take 1 (snd (run_frames fs (syncMode m st))) \<noteq> [m] \<and>
   ((\<forall>f\<in>set fs. frame_implies m f) \<longrightarrow> snd (run_frames fs (syncMode m st)) = []) \<and>
   (\<forall>f st1 ev m'. predictWebcam f (syncMode m st) = Some (st1, ev) \<longrightarrow>
      (ev = Some m' \<longleftrightarrow>
         m' \<noteq> m \<and> frame_implies m' f \<and> CONFIDENCE_THRESHOLD \<le> run_counter m' st))"
proof -
  have l: "lastModeRef (syncMode m st) = m" by (simp add: syncMode_def)
  show ?thesis
    using l run_frames_first_event [of fs "syncMode m st"]
      run_frames_committed_mode [OF l, of fs] next_frame_after_sync [of _ m st]
    by auto
qed

theorem external_mode_sync_witness:
  "closed_frame (Some [fist]) \<and> frame_implies FORMED (Some [fist]) \<and>
   set (replicate 3 (Some [fist])) = {Some [fist]} \<and>
   snd (run_frames (replicate 3 (Some [fist]))
      (syncMode FORMED
         (fst (run_frames (replicate 6 (Some [open_hand])) (initial_state FORMED))))) = [] \<and>
   frame_implies CHAOS (Some [open_hand]) \<and>
   CONFIDENCE_THRESHOLD \<le>
     run_counter CHAOS (fst (run_frames (replicate 6 (Some [open_hand])) (initial_state FORMED))) \<and>
   (\<exists>st1. predictWebcam (Some [open_hand])
      (syncMode FORMED
         (fst (run_frames (replicate 6 (Some [open_hand])) (initial_state FORMED)))) =
      Some (st1, Some CHAOS))"
proof -
  let ?st = "fst (run_frames (replicate 6 (Some [open_hand])) (initial_state FORMED))"
  note t = external_mode_sync [of FORMED ?st "replicate 3 (Some [fist])"]
  have i: "frame_implies FORMED (Some [fist])" "frame_implies CHAOS (Some [open_hand])"
    by (simp_all add: frame_implies_def closed_frame_fist open_frame_open_hand)
  have e: "set (replicate 3 (Some [fist])) = {Some [fist]}" by simp
  have h: "\<forall>f\<in>set (replicate 3 (Some [fist])). frame_implies FORMED f"
    unfolding e using i by simp
  have q: "snd (run_frames (replicate 3 (Some [fist])) (syncMode FORMED ?st)) = []"
    using t h by blast
  have c: "CONFIDENCE_THRESHOLD \<le> run_counter CHAOS ?st"
    using six_open_frames by (simp add: run_counter_def CONFIDENCE_THRESHOLD_def)
  obtain st1 ev where p: "predictWebcam (Some [open_hand]) (syncMode FORMED ?st) = Some (st1, ev)"
    using predictWebcam_hand [of "Some [open_hand]" 5 "syncMode FORMED ?st"]
    by (cases "commitGesture 5 (syncMode FORMED ?st)")
       (simp add: frame_count_def countExtendedFingers_open_hand)
  have "ev = Some CHAOS"
    using t p i(2) c by blast
  then have x: "\<exists>st1. predictWebcam (Some [open_hand]) (syncMode FORMED ?st) = Some (st1, Some CHAOS)"
    using p by blast
  show ?thesis using closed_frame_fist i e q c x by blast
qed

text \<open>
  Claim C10. In every state reachable from zero counters both counters are non-negative
  and at most one of them is nonzero.
\<close>

theorem counters_invariant:
  "reachable st \<Longrightarrow>
   0 \<le> openFrames st \<and> 0 \<le> closedFrames st \<and> (openFrames st = 0 \<or> closedFrames st = 0)"
proof (induction rule: reachable.induct)
  case (start st)
  then show ?case by simp
next
  case (frame st f st1 ev)
  then show ?case using predictWebcam_counters [of f st st1 ev] by blast
next
  case (sync st m)
  then show ?case by (simp add: syncMode_def)
qed

lemma reachable_run_frames: "reachable st \<Longrightarrow> reachable (fst (run_frames fs st))"
proof (induction fs arbitrary: st)
  case Nil
  then show ?case by simp
next
  case (Cons f fs)
  show ?case
  proof (cases "predictWebcam f st")
    case None
    then show ?thesis using Cons.prems by simp
  next
    case (Some r)
    obtain st1 ev where p: "predictWebcam f st = Some (st1, ev)" using Some by (cases r) simp
    have "reachable st1" using reachable.frame [OF Cons.prems p] .
    then show ?thesis
      using Cons.IH [of st1] by (simp add: run_frames_Cons_Some [OF p] del: run_frames.simps)
  qed
qed

theorem counters_invariant_witness:
  "reachable (fst (run_frames [Some [open_hand], None, Some [fist]] (initial_state FORMED))) \<and>
   0 \<le> openFrames (fst (run_frames [Some [open_hand], None, Some [fist]] (initial_state FORMED))) \<and>
   0 \<le> closedFrames (fst (run_frames [Some [open_hand], None, Some [fist]] (initial_state FORMED))) \<and>
   (openFrames (fst (run_frames [Some [open_hand], None, Some [fist]] (initial_state FORMED))) = 0 \<or>
    closedFrames (fst (run_frames [Some [open_hand], None, Some [fist]] (initial_state FORMED))) = 0)"
proof -
  have "reachable (initial_state FORMED)"
    by (rule reachable.start) (simp_all add: initial_state_def)
  then have r: "reachable (fst (run_frames [Some [open_hand], None, Some [fist]] (initial_state FORMED)))"
    by (rule reachable_run_frames)
  show ?thesis using counters_invariant [OF r] r by simp
qed








lemma progress_step_gap:
  "(if mode = FORMED then 1 else 0) - progress_step mode delta p =
     ((if mode = FORMED then 1 else 0) - p) * (1 - delta * 1.5)"
  by (cases mode) (simp_all add: progress_step_def lerp_def field_simps)

lemma run_progress_gap:
  "(if mode = FORMED then 1 else 0) - run_progress mode deltas p =
     ((if mode = FORMED then 1 else 0) - p) * prod_list (map (\<lambda>d. 1 - d * 1.5) deltas)"
proof (induction deltas arbitrary: p)
  case Nil
  show ?case by simp
next
  case (Cons d deltas)
  have "(if mode = FORMED then 1 else 0) - run_progress mode (d # deltas) p =
      ((if mode = FORMED then 1 else 0) - progress_step mode d p) *
        prod_list (map (\<lambda>d. 1 - d * 1.5) deltas)"
    using Cons.IH [of "progress_step mode d p"] by simp
  also have "\<dots> = ((if mode = FORMED then 1 else 0) - p) * (1 - d * 1.5) *
        prod_list (map (\<lambda>d. 1 - d * 1.5) deltas)"
    by (simp only: progress_step_gap)
  finally show ?case by (simp add: mult.assoc)
qed

lemma damping_product_bounds:
  assumes "\<forall>d\<in>set deltas. 0 \<le> d \<and> d * 1.5 \<le> (1::real)"
  shows "0 \<le> prod_list (map (\<lambda>d. 1 - d * 1.5) deltas) \<and>
         prod_list (map (\<lambda>d. 1 - d * 1.5) deltas) \<le> exp (- (1.5 * sum_list deltas)) \<and>
         prod_list (map (\<lambda>d. 1 - d * 1.5) deltas) \<le> 1"
  using assms
proof (induction deltas)
  case Nil
  show ?case by simp
next
  case (Cons d deltas)
  let ?P = "prod_list (map (\<lambda>d. 1 - d * 1.5) deltas)"
  have ih: "0 \<le> ?P" "?P \<le> exp (- (1.5 * sum_list deltas))" "?P \<le> 1"
    using Cons by simp_all
  have d: "0 \<le> d" "d * 1.5 \<le> 1" using Cons.prems by simp_all
  have f0: "0 \<le> 1 - d * 1.5" using d by simp
  have f1: "1 - d * 1.5 \<le> 1" using d by simp
  have fe: "1 - d * 1.5 \<le> exp (- (1.5 * d))"
    using exp_ge_add_one_self [of "- (1.5 * d)"] by (simp add: mult.commute)
  have "(1 - d * 1.5) * ?P \<le> exp (- (1.5 * d)) * exp (- (1.5 * sum_list deltas))"
    using f0 fe ih(1,2) by (intro mult_mono) simp_all
  also have "\<dots> = exp (- (1.5 * sum_list (d # deltas)))"
    by (simp add: exp_add [symmetric] algebra_simps)
  finally have e: "(1 - d * 1.5) * ?P \<le> exp (- (1.5 * sum_list (d # deltas)))" .
  have "(1 - d * 1.5) * ?P \<le> 1 * 1"
    using f0 f1 ih(1,3) by (intro mult_mono) simp_all
  then show ?case using e f0 ih(1) by simp
qed

lemma run_progress_between:
  assumes "\<forall>d\<in>set deltas. 0 \<le> d \<and> d * 1.5 \<le> (1::real)" and "0 \<le> p" and "p \<le> 1"
  shows "0 \<le> run_progress mode deltas p \<and> run_progress mode deltas p \<le> 1 \<and>
         (mode = FORMED \<longrightarrow> p \<le> run_progress mode deltas p) \<and>
         (mode = CHAOS \<longrightarrow> run_progress mode deltas p \<le> p)"
proof -
  let ?P = "prod_list (map (\<lambda>d. 1 - d * 1.5) deltas)"
  note b = damping_product_bounds [OF assms(1)]
  note g = run_progress_gap [of mode deltas p]
  show ?thesis
  proof (cases mode)
    case CHAOS
    then have r: "run_progress mode deltas p = p * ?P" using g by simp
    have "p * ?P \<le> p * 1" using b assms(2) by (intro mult_left_mono) simp_all
    moreover have "0 \<le> p * ?P" using b assms(2) by simp
    ultimately show ?thesis using r CHAOS assms(3) by simp
  next
    case FORMED
    then have r: "run_progress mode deltas p = 1 - (1 - p) * ?P" using g by simp
    have "(1 - p) * ?P \<le> (1 - p) * 1" using b assms(3) by (intro mult_left_mono) simp_all
    moreover have "0 \<le> (1 - p) * ?P" using b assms(3) by simp
    ultimately show ?thesis using r FORMED assms(2) by simp
  qed
qed

text \<open>
  Claim C2, as the code has it. One frame with \<open>delta = 1\<close> takes the progress from 0 past
  its target 1, to 1.5: the step is a plain \<open>lerp\<close> with the factor \<open>delta * 1.5\<close>, which
  nothing clamps.
\<close>

theorem progress_overshoot_counterexample:
  "(0::real) \<le> 1 \<and> progress_step FORMED 1 0 = 3 / 2 \<and> \<not> progress_step FORMED 1 0 \<le> 1"
  by (simp add: progress_step_def lerp_def)

text \<open>
  Claim C2, amended. When every frame's \<open>delta\<close> is non-negative with \<open>delta * 1.5 \<le> 1\<close>,
  the progress that starts at 0 with the target 1 stays in \<open>[0, 1]\<close> on every frame and
  is within 0.01 of 1 once the deltas add up to at least \<open>ln 100 / 1.5\<close>. That each
  single step moves towards the target is not part of the statement: it holds of the
  real numbers of this model, while the doubles of the code can lose the last bit in a
  step close to the target.
\<close>

theorem progress_bounded_monotone_converges:
  assumes "\<forall>d\<in>set deltas. 0 \<le> d \<and> d * 1.5 \<le> 1"
  shows "(\<forall>k\<le>length deltas.
            0 \<le> run_progress FORMED (take k deltas) 0 \<and>
            run_progress FORMED (take k deltas) 0 \<le> 1) \<and>
         (ln 100 \<le> 1.5 * sum_list deltas \<longrightarrow> 1 - run_progress FORMED deltas 0 \<le> 0.01)"
proof (intro conjI allI impI)
  fix k
  have s: "\<forall>d\<in>set (take k deltas). 0 \<le> d \<and> d * 1.5 \<le> 1"
    using assms by (meson in_set_takeD)
  show "0 \<le> run_progress FORMED (take k deltas) 0"
    using run_progress_between [OF s, of 0 FORMED] by simp
  show "run_progress FORMED (take k deltas) 0 \<le> 1"
    using run_progress_between [OF s, of 0 FORMED] by simp
next
  assume l: "ln 100 \<le> 1.5 * sum_list deltas"
  let ?P = "prod_list (map (\<lambda>d. 1 - d * 1.5) deltas)"
  have "1 - run_progress FORMED deltas 0 = ?P"
    using run_progress_gap [of FORMED deltas 0] by simp
  also have "?P \<le> exp (- (1.5 * sum_list deltas))"
    using damping_product_bounds [OF assms] by simp
  also have "\<dots> \<le> exp (- ln 100)"
    using l by simp
  also have "\<dots> = 0.01"
    by (simp add: exp_minus)
  finally show "1 - run_progress FORMED deltas 0 \<le> 0.01" .
qed

lemma ln_100_le: "ln (100::real) \<le> 99"
  using ln_le_minus_one [of "100::real"] by simp

theorem progress_bounded_monotone_converges_witness:
  "set (replicate 200 (1 / 2 :: real)) = {1 / 2} \<and> (0::real) \<le> 1 / 2 \<and> (1 / 2 :: real) * 1.5 \<le> 1 \<and>
   ln 100 \<le> 1.5 * sum_list (replicate 200 (1 / 2 :: real)) \<and>
   0 \<le> run_progress FORMED (replicate 200 (1 / 2)) 0 \<and>
   run_progress FORMED (replicate 200 (1 / 2)) 0 \<le> 1 \<and>
   1 - run_progress FORMED (replicate 200 (1 / 2)) 0 \<le> 0.01"
proof -
  have e: "set (replicate 200 (1 / 2 :: real)) = {1 / 2}" by simp
  have h: "\<forall>d\<in>set (replicate 200 (1 / 2 :: real)). 0 \<le> d \<and> d * 1.5 \<le> 1"
    unfolding e by simp
  have l: "ln 100 \<le> 1.5 * sum_list (replicate 200 (1 / 2 :: real))"
    using ln_100_le by (simp add: sum_list_replicate)
  note t = progress_bounded_monotone_converges [OF h]
  have "0 \<le> run_progress FORMED (take 200 (replicate 200 (1 / 2))) 0 \<and>
        run_progress FORMED (take 200 (replicate 200 (1 / 2))) 0 \<le> 1"
    using t by simp
  then show ?thesis using t l e by simp
qed






lemma hypot_cos_sin: "hypot (cos a * r) (sin a * r) = \<bar>r\<bar>"
proof -
  have "cos a * r * (cos a * r) + sin a * r * (sin a * r) = (r * r) * ((sin a)\<^sup>2 + (cos a)\<^sup>2)"
    by (simp only: power2_eq_square ring_distribs mult_ac)
  also have "\<dots> = r * r"
    by (simp only: sin_cos_squared_add mult_1_right)
  finally have "hypot (cos a * r) (sin a * r) = sqrt (r * r)"
    by (simp only: hypot_def)
  then show ?thesis by simp
qed














lemma foliage_loop_step:
  "i < count \<Longrightarrow>
   foliage_loop random count i a = foliage_loop random count (Suc i) (foliage_body random count i a)"
  by (subst foliage_loop.simps) (simp only: if_True Suc_eq_plus1)

lemma foliage_loop_stop:
  "\<not> i < count \<Longrightarrow> foliage_loop random count i a = a"
  by (subst foliage_loop.simps) (simp only: if_False)

lemma foliage_body_lengths:
  "length (chaosPositions (foliage_body random count i a)) = length (chaosPositions a)"
  "length (targetPositions (foliage_body random count i a)) = length (targetPositions a)"
  "length (randoms (foliage_body random count i a)) = length (randoms a)"
  by (simp_all add: foliage_body_def Let_def)

lemma foliage_body_below:
  "m < i * 3 \<Longrightarrow> targetPositions (foliage_body random count i a) ! m = targetPositions a ! m"
  "m < i * 3 \<Longrightarrow> chaosPositions (foliage_body random count i a) ! m = chaosPositions a ! m"
  "k < i \<Longrightarrow> randoms (foliage_body random count i a) ! k = randoms a ! k"
  by (simp_all add: foliage_body_def Let_def)

lemma foliage_body_at:
  assumes "i * 3 + 2 < length (targetPositions a)"
  shows "targetPositions (foliage_body random count i a) ! (i * 3) =
           cos (target_thetaSpiral count i) * target_rr random count i"
    and "targetPositions (foliage_body random count i a) ! (i * 3 + 2) =
           sin (target_thetaSpiral count i) * target_rr random count i"
  using assms
  by (simp_all add: foliage_body_def Let_def target_thetaSpiral_def target_rr_def)

lemma foliage_body_random_at:
  "i < length (randoms a) \<Longrightarrow> randoms (foliage_body random count i a) ! i = random (7 * i + 6)"
  by (simp add: foliage_body_def Let_def)

lemma foliage_loop_lengths:
  "length (chaosPositions (foliage_loop random count i a)) = length (chaosPositions a) \<and>
   length (targetPositions (foliage_loop random count i a)) = length (targetPositions a) \<and>
   length (randoms (foliage_loop random count i a)) = length (randoms a)"
proof (induction random count i a rule: foliage_loop.induct)
  case (1 random count i a)
  show ?case
  proof (cases "i < count")
    case True
    then show ?thesis
      using "1.IH" [OF True]
      by (simp only: foliage_loop_step [OF True] Suc_eq_plus1 foliage_body_lengths)
  next
    case False
    then show ?thesis by (simp only: foliage_loop_stop [OF False])
  qed
qed

lemma foliage_loop_below:
  "(m < i * 3 \<longrightarrow> targetPositions (foliage_loop random count i a) ! m = targetPositions a ! m) \<and>
   (k < i \<longrightarrow> randoms (foliage_loop random count i a) ! k = randoms a ! k)"
proof (induction random count i a rule: foliage_loop.induct)
  case (1 random count i a)
  show ?case
  proof (cases "i < count")
    case True
    have "m < i * 3 \<Longrightarrow> m < (i + 1) * 3" by simp
    moreover have "k < i \<Longrightarrow> k < i + 1" by simp
    ultimately show ?thesis
      using "1.IH" [OF True]
      by (simp add: foliage_loop_step [OF True] foliage_body_below)
  next
    case False
    then show ?thesis by (simp only: foliage_loop_stop [OF False] simp_thms)
  qed
qed

lemma foliage_loop_at:
  "i \<le> j \<Longrightarrow> j < count \<Longrightarrow> count * 3 \<le> length (targetPositions a) \<Longrightarrow>
   count \<le> length (randoms a) \<Longrightarrow>
   targetPositions (foliage_loop random count i a) ! (j * 3) =
     cos (target_thetaSpiral count j) * target_rr random count j \<and>
   targetPositions (foliage_loop random count i a) ! (j * 3 + 2) =
     sin (target_thetaSpiral count j) * target_rr random count j \<and>
   randoms (foliage_loop random count i a) ! j = random (7 * j + 6)"
proof (induction random count i a rule: foliage_loop.induct)
  case (1 random count i a)
  have ic: "i < count" using "1.prems" by simp
  let ?b = "foliage_body random count i a"
  have step: "foliage_loop random count i a = foliage_loop random count (i + 1) ?b"
    using foliage_loop_step [OF ic] by simp
  show ?case
  proof (cases "i = j")
    case True
    have l: "j * 3 + 2 < length (targetPositions a)" "j < length (randoms a)"
      using "1.prems" by simp_all
    have "j * 3 < (i + 1) * 3" "j * 3 + 2 < (i + 1) * 3" "j < i + 1" using True by simp_all
    then have "targetPositions (foliage_loop random count (i + 1) ?b) ! (j * 3) =
          targetPositions ?b ! (j * 3)"
      "targetPositions (foliage_loop random count (i + 1) ?b) ! (j * 3 + 2) =
          targetPositions ?b ! (j * 3 + 2)"
      "randoms (foliage_loop random count (i + 1) ?b) ! j = randoms ?b ! j"
      using foliage_loop_below [of _ "i + 1" random count ?b] by blast+
    then show ?thesis
      unfolding step using foliage_body_at [of j a random count] l
        foliage_body_random_at [of j a random count] True by simp
  next
    case False
    then have "i + 1 \<le> j" using "1.prems" by simp
    then show ?thesis
      unfolding step using "1.IH" [OF ic] "1.prems" by (simp add: foliage_body_lengths)
  qed
qed

lemma three_powr_bound: "11 / 9 < (3::real) powr 0.45"
proof -
  have n: "(11 / 9 :: real) ^ 20 < 3 ^ 9" by (simp add: power_divide)
  have a: "((11 / 9 :: real) ^ 20) powr (1 / 20) = 11 / 9"
  proof -
    have "((11 / 9 :: real) ^ 20) powr (1 / 20) = ((11 / 9) powr 20) powr (1 / 20)"
      by (subst powr_realpow [symmetric]) simp_all
    also have "\<dots> = (11 / 9) powr (20 * (1 / 20))"
      by (rule powr_powr)
    finally show ?thesis by simp
  qed
  have b: "((3 :: real) ^ 9) powr (1 / 20) = 3 powr 0.45"
  proof -
    have "((3 :: real) ^ 9) powr (1 / 20) = (3 powr 9) powr (1 / 20)"
      by (subst powr_realpow [symmetric]) simp_all
    also have "\<dots> = 3 powr (9 * (1 / 20))"
      by (rule powr_powr)
    finally show ?thesis by simp
  qed
  have "((11 / 9 :: real) ^ 20) powr (1 / 20) < ((3 :: real) ^ 9) powr (1 / 20)"
    using n by (intro powr_less_mono2) simp_all
  then show ?thesis by (simp only: a b)
qed

lemma target_u_ends:
  assumes "2 \<le> N"
  shows "0 < target_u N 0" and "3 * target_u N 0 \<le> target_u N (N - 1)"
proof -
  have N: "0 < real N" "2 \<le> real N" using assms by simp_all
  show "0 < target_u N 0" using N by (simp add: target_u_def)
  have "real (N - 1) = real N - 1" using assms by (simp add: of_nat_diff)
  then have "target_u N (N - 1) = (real N - 0.5) / real N" by (simp add: target_u_def)
  moreover have "3 * target_u N 0 = 1.5 / real N" by (simp add: target_u_def)
  moreover have "1.5 / real N \<le> (real N - 0.5) / real N"
    using N by (intro divide_right_mono) simp_all
  ultimately show "3 * target_u N 0 \<le> target_u N (N - 1)" by simp
qed

lemma target_r01_ends:
  assumes "2 \<le> N"
  shows "0 < target_r01 (target_u N 0)"
    and "11 * target_r01 (target_u N 0) < 9 * target_r01 (target_u N (N - 1))"
proof -
  note u = target_u_ends [OF assms]
  let ?r0 = "target_u N 0 powr 0.45"
  show p: "0 < target_r01 (target_u N 0)" using u(1) by (simp add: target_r01_def)
  have "(3 * target_u N 0) powr 0.45 \<le> target_u N (N - 1) powr 0.45"
    using u by (intro powr_mono2) simp_all
  moreover have "(3 * target_u N 0) powr 0.45 = 3 powr 0.45 * ?r0"
    using u(1) by (simp add: powr_mult)
  ultimately have "3 powr 0.45 * ?r0 \<le> target_r01 (target_u N (N - 1))"
    by (simp add: target_r01_def)
  moreover have "11 / 9 * ?r0 < 3 powr 0.45 * ?r0"
    using three_powr_bound p by (intro mult_strict_right_mono) (simp_all add: target_r01_def)
  ultimately have "11 / 9 * ?r0 < target_r01 (target_u N (N - 1))" by linarith
  then show "11 * target_r01 (target_u N 0) < 9 * target_r01 (target_u N (N - 1))"
    by (simp add: target_r01_def)
qed

lemma generatePositions_at:
  assumes "j < N"
  shows "targetPositions (generatePositions random N) ! (j * 3) =
           cos (target_thetaSpiral N j) * target_rr random N j"
    and "targetPositions (generatePositions random N) ! (j * 3 + 2) =
           sin (target_thetaSpiral N j) * target_rr random N j"
    and "randoms (generatePositions random N) ! j = random (7 * j + 6)"
  using foliage_loop_at [of 0 j N
      "\<lparr>chaosPositions = replicate (N * 3) 0, targetPositions = replicate (N * 3) 0,
        randoms = replicate N 0\<rparr>" random] assms
  by (simp_all add: generatePositions_def)

lemma target_radial_generatePositions:
  "j < N \<Longrightarrow> target_radial (generatePositions random N) j = \<bar>target_rr random N j\<bar>"
  by (simp only: target_radial_def generatePositions_at hypot_cos_sin)

text \<open>
  Claim C4. For every particle count \<open>N\<close> the generator returns a chaos array and a
  target array of \<open>3 * N\<close> numbers and a random-factor array of \<open>N\<close> numbers, with every
  random factor written; for \<open>N = 0\<close> the three arrays are empty; and whenever the body of
  the loop runs, its one denominator \<open>count\<close> is not zero, so that the rank \<open>u\<close> is the
  true quotient \<open>(i + 0.5) / N\<close> (for \<open>N = 1\<close> it is 0.5).
\<close>

theorem generatePositions_lengths:
  "length (chaosPositions (generatePositions random N)) = N * 3 \<and>
   length (targetPositions (generatePositions random N)) = N * 3 \<and>
   length (randoms (generatePositions random N)) = N \<and>
   generatePositions random 0 = \<lparr>chaosPositions = [], targetPositions = [], randoms = []\<rparr> \<and>
   (\<forall>i<N. real N \<noteq> 0 \<and> target_u N i * real N = real i + 0.5 \<and>
           randoms (generatePositions random N) ! i = random (7 * i + 6)) \<and>
   target_u 1 0 = 0.5"
proof -
  have l: "length (chaosPositions (generatePositions random N)) = N * 3 \<and>
      length (targetPositions (generatePositions random N)) = N * 3 \<and>
      length (randoms (generatePositions random N)) = N"
    unfolding generatePositions_def by (simp add: foliage_loop_lengths)
  have z: "generatePositions random 0 = \<lparr>chaosPositions = [], targetPositions = [], randoms = []\<rparr>"
    unfolding generatePositions_def by (simp add: foliage_loop_stop)
  have u: "\<forall>i<N. real N \<noteq> 0 \<and> target_u N i * real N = real i + 0.5 \<and>
           randoms (generatePositions random N) ! i = random (7 * i + 6)"
    by (auto simp: target_u_def generatePositions_at)
  have o: "target_u 1 0 = 0.5" by (simp add: target_u_def)
  show ?thesis using l z u o by blast
qed

theorem generatePositions_lengths_witness:
  "length (chaosPositions (generatePositions (const_random (1 / 4)) 1)) = 3 \<and>
   length (targetPositions (generatePositions (const_random (1 / 4)) 1)) = 3 \<and>
   length (randoms (generatePositions (const_random (1 / 4)) 1)) = 1 \<and>
   target_u 1 0 * real 1 = 1 / 2 \<and>
   randoms (generatePositions (const_random (1 / 4)) 1) ! 0 = 1 / 4"
  using generatePositions_lengths [of "const_random (1 / 4)" 1]
  by (simp add: const_random_def)

text \<open>
  Claim C5, as the code has it. For \<open>N = 1\<close> the index 0 and the index \<open>N - 1\<close> are the same
  particle, so its radial distance is not strictly less than itself.
\<close>

theorem target_radius_same_index_counterexample:
  "\<not> target_radial (generatePositions (const_random (1 / 2)) 1) 0 <
       target_radial (generatePositions (const_random (1 / 2)) 1) (1 - 1)"
  by simp

text \<open>
  Claim C5, amended. For every particle count \<open>N \<ge> 2\<close> and every stream of draws in
  \<open>[0, 1)\<close>, the radius \<open>diskR\<close> of index 0 is strictly less than that of index \<open>N - 1\<close>,
  and so is the radial distance of the position written for index 0 compared with the
  one written for index \<open>N - 1\<close>, whatever the jitter.
\<close>

theorem target_radius_core_bias:
  assumes "2 \<le> N" and "\<forall>k. 0 \<le> random k \<and> random k < 1"
  shows "target_diskR (target_r01 (target_u N 0)) < target_diskR (target_r01 (target_u N (N - 1))) \<and>
         target_radial (generatePositions random N) 0 <
           target_radial (generatePositions random N) (N - 1)"
proof -
  let ?r0 = "target_r01 (target_u N 0)"
  let ?r1 = "target_r01 (target_u N (N - 1))"
  let ?j0 = "1 + (random (7 * 0 + 5) - 0.5) * 0.20"
  let ?j1 = "1 + (random (7 * (N - 1) + 5) - 0.5) * 0.20"
  note r = target_r01_ends [OF assms(1)]
  have r1: "0 < ?r1" using r by linarith
  have a0: "0 \<le> random (7 * 0 + 5)" "random (7 * 0 + 5) < 1"
    using assms(2) by blast+
  have a1: "0 \<le> random (7 * (N - 1) + 5)"
    using assms(2) by blast
  have j0: "0 < ?j0" "?j0 < 11 / 10" using a0 by (simp_all add: field_simps)
  have j1: "9 / 10 \<le> ?j1" using a1 by (simp add: field_simps)
  have d: "target_diskR ?r0 < target_diskR ?r1"
    using r by (simp add: target_diskR_def maxRadius_def)
  have "?r0 * ?j0 < ?r0 * (11 / 10)" using r(1) j0(2) by (rule mult_strict_left_mono [rotated])
  also have "\<dots> < ?r1 * (9 / 10)" using r(2) by simp
  also have "\<dots> \<le> ?r1 * ?j1" using r1 j1 by (intro mult_left_mono) simp_all
  finally have m: "?r0 * ?j0 < ?r1 * ?j1" .
  have "0 < ?r0 * ?j0" using r(1) j0(1) by (rule mult_pos_pos)
  then have p: "0 < target_rr random N 0" "target_rr random N 0 < target_rr random N (N - 1)"
    using m by (simp_all add: target_rr_def target_diskR_def maxRadius_def)
  have i: "0 < N" "N - 1 < N" using assms(1) by simp_all
  have q: "0 < target_rr random N (N - 1)" using p by linarith
  have "target_radial (generatePositions random N) 0 = target_rr random N 0"
    using p(1) by (simp only: target_radial_generatePositions [OF i(1)] abs_of_pos)
  moreover have "target_radial (generatePositions random N) (N - 1) = target_rr random N (N - 1)"
    using q by (simp only: target_radial_generatePositions [OF i(2)] abs_of_pos)
  ultimately show ?thesis using d p(2) by (simp only: simp_thms)
qed

theorem target_radius_core_bias_witness:
  "(2::nat) \<le> 2 \<and> (\<forall>k. 0 \<le> const_random (1 / 2) k \<and> const_random (1 / 2) k < 1) \<and>
   target_radial (generatePositions (const_random (1 / 2)) 2) 0 <
     target_radial (generatePositions (const_random (1 / 2)) 2) 1"
proof -
  have h: "\<forall>k. 0 \<le> const_random (1 / 2) k \<and> const_random (1 / 2) k < 1"
    by (simp add: const_random_def)
  show ?thesis
    using target_radius_core_bias [of 2 "const_random (1 / 2)", OF _ h] h by simp
qed

end
